theory Spec2Isabelle
  imports Main "HOL-Library.Word"
begin

unbundle bit_operations_syntax

section \<open>Python values used by \<open>save_editor.py\<close>\<close>

text \<open>
  A save file is a sequence of bytes. Python integers are unbounded (\<open>int\<close>), a Python
  \<open>bytes\<close> object is a list of 8-bit words, and the hexadecimal strings built by
  \<open>hex\<close> are lists of characters. Every exception the module can raise is a value
  of \<open>error\<close>.
\<close>

type_synonym byte = "8 word"

datatype error = RuntimeError | ValueError | UnicodeDecodeError | OSError

subsection \<open>\<open>hex(n)\<close>\<close>

definition hex_digit :: "nat \<Rightarrow> char" where
  "hex_digit d = ''0123456789abcdef'' ! d"

fun hex_digits :: "nat \<Rightarrow> string" where
  "hex_digits n =
     (if n < 16 then [hex_digit n] else hex_digits (n div 16) @ [hex_digit (n mod 16)])"

declare hex_digits.simps [simp del]

definition hex :: "int \<Rightarrow> string" where
  \<comment> \<open>\<open>hex(255) = '0xff'\<close>, \<open>hex(0) = '0x0'\<close>, \<open>hex(-255) = '-0xff'\<close>\<close>
  "hex n = (if n < 0 then ''-0x'' @ hex_digits (nat (- n)) else ''0x'' @ hex_digits (nat n))"

subsection \<open>Slices \<open>xs[lo:hi]\<close>\<close>

definition slice_index :: "nat \<Rightarrow> int \<Rightarrow> nat" where
  \<comment> \<open>a negative bound counts from the end; every bound is clipped to \<open>0..len\<close>\<close>
  "slice_index n i = (if i < 0 then nat (max (int n + i) 0) else min (nat i) n)"

definition slice :: "int option \<Rightarrow> int option \<Rightarrow> 'a list \<Rightarrow> 'a list" where
  "slice lo hi xs =
     (let n = length xs;
          a = (case lo of None \<Rightarrow> 0 | Some i \<Rightarrow> slice_index n i);
          b = (case hi of None \<Rightarrow> n | Some j \<Rightarrow> slice_index n j)
      in drop a (take b xs))"

subsection \<open>\<open>bytes.fromhex\<close> and \<open>binascii.hexlify\<close>\<close>

definition hexval :: "char \<Rightarrow> nat option" where
  "hexval c =
     (let k = (of_char c :: nat)
      in if 48 \<le> k \<and> k \<le> 57 then Some (k - 48)
         else if 97 \<le> k \<and> k \<le> 102 then Some (k - 87)
         else if 65 \<le> k \<and> k \<le> 70 then Some (k - 55)
         else None)"

definition is_space :: "char \<Rightarrow> bool" where
  \<comment> \<open>ASCII whitespace: tab, line feed, vertical tab, form feed, carriage return, space\<close>
  "is_space c = ((of_char c :: nat) \<in> {9, 10, 11, 12, 13, 32})"

text \<open>
  \<open>bytes.fromhex\<close> reads two hexadecimal digits per byte and skips ASCII whitespace
  in front of a pair; anything else (a character that is no digit, a single trailing
  digit) raises \<open>ValueError\<close>.
\<close>

fun fromhex :: "string \<Rightarrow> error + byte list" where
  "fromhex [] = Inr []"
| "fromhex [c] = (if is_space c then Inr [] else Inl ValueError)"
| "fromhex (c # d # cs) =
     (if is_space c then fromhex (d # cs)
      else case (hexval c, hexval d) of
             (Some h, Some l) \<Rightarrow>
               (case fromhex cs of
                  Inl e \<Rightarrow> Inl e
                | Inr bs \<Rightarrow> Inr (of_nat (16 * h + l) # bs))
           | _ \<Rightarrow> Inl ValueError)"

definition hexlify :: "byte list \<Rightarrow> byte list" where
  \<comment> \<open>two lowercase ASCII hexadecimal digits per byte\<close>
  "hexlify bs =
     concat (map (\<lambda>b. [of_char (hex_digit (unat b div 16)),
                        of_char (hex_digit (unat b mod 16))]) bs)"

subsection \<open>\<open>int.from_bytes(window, 'little')\<close>\<close>

fun decode_le :: "byte list \<Rightarrow> nat" where
  "decode_le [] = 0"
| "decode_le (b # bs) = unat b + 256 * decode_le bs"

definition window :: "nat \<Rightarrow> nat \<Rightarrow> byte list \<Rightarrow> byte list" where
  "window off w buf = take w (drop off buf)"

section \<open>The open file and the editor\<close>

text \<open>
  \<open>SaveEditor\<close> holds a handle that \<open>__init__\<close> sets to \<open>None\<close>,
  \<open>__enter__\<close> opens in mode \<open>r+b\<close> at position 0 and \<open>__exit__\<close> closes.
  The state of the model is the handle together with the bytes of the file at
  \<open>save_path\<close>, so that a call can be compared with the bytes it found.
\<close>

record file_obj =
  pos :: nat
  closed :: bool

record save_editor =
  save_data :: "byte list"
  file_handle :: "file_obj option"

type_synonym 'a io = "save_editor \<Rightarrow> (error + 'a) \<times> save_editor"

definition io_lift :: "error + 'a \<Rightarrow> 'a io" where
  "io_lift r s = (r, s)"

definition io_bind :: "'a io \<Rightarrow> ('a \<Rightarrow> 'b io) \<Rightarrow> 'b io" where
  "io_bind m k s = (case m s of (Inl e, s') \<Rightarrow> (Inl e, s') | (Inr a, s') \<Rightarrow> k a s')"

fun io_seq :: "unit io list \<Rightarrow> unit io" where
  \<comment> \<open>statements one after the other; an exception ends the sequence\<close>
  "io_seq [] s = (Inr (), s)"
| "io_seq (m # ms) s = (case m s of (Inl e, s') \<Rightarrow> (Inl e, s') | (Inr u, s') \<Rightarrow> io_seq ms s')"

definition for_range :: "nat \<Rightarrow> nat \<Rightarrow> (nat \<Rightarrow> unit io) \<Rightarrow> unit io" where
  \<comment> \<open>\<open>for i in range(a, b): body\<close>\<close>
  "for_range a b body = io_seq (map body [a..<b])"

definition write_at :: "nat \<Rightarrow> byte list \<Rightarrow> byte list \<Rightarrow> byte list" where
  \<comment> \<open>the file after writing \<open>bs\<close> at offset \<open>p\<close>; a gap past the end reads as zeros\<close>
  "write_at p bs f = take p f @ replicate (p - length f) 0 @ bs @ drop (p + length bs) f"

definition file_seek :: "nat \<Rightarrow> unit io" where
  "file_seek p s =
     (case file_handle s of
        None \<Rightarrow> (Inl RuntimeError, s)
      | Some f \<Rightarrow>
          if closed f then (Inl ValueError, s)
          else (Inr (), s\<lparr>file_handle := Some (f\<lparr>pos := p\<rparr>)\<rparr>))"

definition file_write :: "byte list \<Rightarrow> unit io" where
  "file_write bs s =
     (case file_handle s of
        None \<Rightarrow> (Inl RuntimeError, s)
      | Some f \<Rightarrow>
          if closed f then (Inl ValueError, s)
          else (Inr (), s\<lparr>save_data := write_at (pos f) bs (save_data s),
                           file_handle := Some (f\<lparr>pos := pos f + length bs\<rparr>)\<rparr>))"

definition enter_ctx :: "save_editor \<Rightarrow> save_editor" where
  "enter_ctx s = s\<lparr>file_handle := Some \<lparr>pos = 0, closed = False\<rparr>\<rparr>"

definition exit_ctx :: "save_editor \<Rightarrow> save_editor" where
  "exit_ctx s =
     (case file_handle s of
        None \<Rightarrow> s
      | Some f \<Rightarrow> s\<lparr>file_handle := Some (f\<lparr>closed := True\<rparr>)\<rparr>)"

section \<open>\<open>SaveEditor.set_cat_food\<close> and \<open>SaveEditor.set_xp\<close>\<close>

definition set_cat_food :: "int \<Rightarrow> unit io" where
  "set_cat_food amount s =
     (if file_handle s = None then (Inl RuntimeError, s)
      else
        (let hex_value = slice (Some 2) None (hex amount);
             len = length hex_value
         in io_bind (io_lift (fromhex ''00'')) (\<lambda>padding.
            if len = 1 then
              io_seq [file_seek 7, io_bind (io_lift (fromhex (''0'' @ hex_value))) file_write,
                      file_seek 8, file_write padding,
                      file_seek 9, file_write padding]
            else if len = 2 then
              io_seq [file_seek 7, io_bind (io_lift (fromhex hex_value)) file_write,
                      file_seek 8, file_write padding,
                      file_seek 9, file_write padding]
            else if len = 3 then
              io_bind (io_lift (fromhex (''0'' @ slice None (Some 1) hex_value))) (\<lambda>byte1.
              io_bind (io_lift (fromhex (slice (Some 1) None hex_value))) (\<lambda>byte2.
              io_seq [file_seek 7, file_write byte2,
                      file_seek 8, file_write byte1,
                      file_seek 9, file_write padding]))
            else if len = 4 then
              io_bind (io_lift (fromhex (slice (Some (- 4)) (Some (- 2)) hex_value))) (\<lambda>byte1.
              io_bind (io_lift (fromhex (slice (Some (- 2)) None hex_value))) (\<lambda>byte2.
              io_seq [file_seek 7, file_write byte2,
                      file_seek 8, file_write byte1,
                      file_seek 9, file_write padding]))
            else io_lift (Inr ())) s))"

definition set_xp :: "int \<Rightarrow> unit io" where
  "set_xp amount s =
     (if file_handle s = None then (Inl RuntimeError, s)
      else
        (let hex_value = slice (Some 2) None (hex amount);
             len = length hex_value
         in io_bind (io_lift (fromhex ''00'')) (\<lambda>padding.
            if len = 1 then
              io_seq [file_seek 76, io_bind (io_lift (fromhex (''0'' @ hex_value))) file_write,
                      for_range 77 80 (\<lambda>i. io_seq [file_seek i, file_write padding])]
            else if len = 2 then
              io_seq [file_seek 76, io_bind (io_lift (fromhex hex_value)) file_write,
                      for_range 77 80 (\<lambda>i. io_seq [file_seek i, file_write padding])]
            else if len = 3 then
              io_bind (io_lift (fromhex (''0'' @ slice None (Some 1) hex_value))) (\<lambda>byte1.
              io_bind (io_lift (fromhex (slice (Some 1) None hex_value))) (\<lambda>byte2.
              io_seq [file_seek 76, file_write byte2,
                      file_seek 77, file_write byte1,
                      for_range 78 80 (\<lambda>i. io_seq [file_seek i, file_write padding])]))
            else if len = 4 then
              io_bind (io_lift (fromhex (slice (Some (- 4)) (Some (- 2)) hex_value))) (\<lambda>byte1.
              io_bind (io_lift (fromhex (slice (Some (- 2)) None hex_value))) (\<lambda>byte2.
              io_seq [file_seek 76, file_write byte2,
                      file_seek 77, file_write byte1,
                      for_range 78 80 (\<lambda>i. io_seq [file_seek i, file_write padding])]))
            else if len = 5 then
              io_bind (io_lift (fromhex (''0'' @ slice None (Some 1) hex_value))) (\<lambda>byte1.
              io_bind (io_lift (fromhex (slice (Some 1) (Some 3) hex_value))) (\<lambda>byte2.
              io_bind (io_lift (fromhex (slice (Some 3) None hex_value))) (\<lambda>byte3.
              io_seq [file_seek 76, file_write byte3,
                      file_seek 77, file_write byte2,
                      file_seek 78, file_write byte1,
                      file_seek 79, file_write padding])))
            else if len = 6 then
              io_bind (io_lift (fromhex (slice (Some 4) None hex_value))) (\<lambda>byte1.
              io_bind (io_lift (fromhex (slice (Some 2) (Some 4) hex_value))) (\<lambda>byte2.
              io_bind (io_lift (fromhex (slice None (Some 2) hex_value))) (\<lambda>byte3.
              io_seq [file_seek 76, file_write byte1,
                      file_seek 77, file_write byte2,
                      file_seek 78, file_write byte3,
                      file_seek 79, file_write padding])))
            else if len = 7 then
              io_bind (io_lift (fromhex (slice (Some 5) None hex_value))) (\<lambda>byte1.
              io_bind (io_lift (fromhex (slice (Some 3) (Some 5) hex_value))) (\<lambda>byte2.
              io_bind (io_lift (fromhex (slice (Some 1) (Some 3) hex_value))) (\<lambda>byte3.
              io_bind (io_lift (fromhex (''0'' @ slice None (Some 1) hex_value))) (\<lambda>byte4.
              io_seq [file_seek 76, file_write byte1,
                      file_seek 77, file_write byte2,
                      file_seek 78, file_write byte3,
                      file_seek 79, file_write byte4]))))
            else io_lift (Inr ())) s))"

section \<open>\<open>SaveEditor.patch_checksum\<close>\<close>

subsection \<open>\<open>bytes.decode()\<close>: strict UTF-8\<close>

definition cont_byte :: "byte \<Rightarrow> bool" where
  "cont_byte b = (128 \<le> unat b \<and> unat b \<le> 191)"

text \<open>
  The well-formed byte sequences of UTF-8: one byte below \<open>0x80\<close>; a lead byte
  \<open>0xC2..0xDF\<close> and one continuation byte; \<open>0xE0..0xEF\<close> and two; \<open>0xF0..0xF4\<close>
  and three, where the second byte is restricted after \<open>0xE0\<close>, \<open>0xED\<close>, \<open>0xF0\<close>
  and \<open>0xF4\<close> so that overlong forms, surrogates and values above \<open>0x10FFFF\<close> are
  refused. The result is the list of code points; \<open>None\<close> is \<open>UnicodeDecodeError\<close>.
\<close>

fun utf8_decode :: "byte list \<Rightarrow> nat list option" where
  "utf8_decode [] = Some []"
| "utf8_decode (b0 # bs) =
     (let x = unat b0 in
      if x < 128 then map_option ((#) x) (utf8_decode bs)
      else if 194 \<le> x \<and> x \<le> 223 then
        (case bs of
           b1 # r \<Rightarrow>
             if cont_byte b1
             then map_option ((#) ((x - 192) * 64 + (unat b1 - 128))) (utf8_decode r)
             else None
         | _ \<Rightarrow> None)
      else if 224 \<le> x \<and> x \<le> 239 then
        (case bs of
           b1 # b2 # r \<Rightarrow>
             if cont_byte b1 \<and> cont_byte b2
                \<and> (x = 224 \<longrightarrow> 160 \<le> unat b1) \<and> (x = 237 \<longrightarrow> unat b1 \<le> 159)
             then map_option
                    ((#) ((x - 224) * 4096 + (unat b1 - 128) * 64 + (unat b2 - 128)))
                    (utf8_decode r)
             else None
         | _ \<Rightarrow> None)
      else if 240 \<le> x \<and> x \<le> 244 then
        (case bs of
           b1 # b2 # b3 # r \<Rightarrow>
             if cont_byte b1 \<and> cont_byte b2 \<and> cont_byte b3
                \<and> (x = 240 \<longrightarrow> 144 \<le> unat b1) \<and> (x = 244 \<longrightarrow> unat b1 \<le> 143)
             then map_option
                    ((#) ((x - 240) * 262144 + (unat b1 - 128) * 4096
                          + (unat b2 - 128) * 64 + (unat b3 - 128)))
                    (utf8_decode r)
             else None
         | _ \<Rightarrow> None)
      else None)"

definition decode :: "byte list \<Rightarrow> error + nat list" where
  "decode bs = (case utf8_decode bs of None \<Rightarrow> Inl UnicodeDecodeError | Some cps \<Rightarrow> Inr cps)"

definition str :: "string \<Rightarrow> nat list" where
  \<comment> \<open>the code points of a string of ASCII characters\<close>
  "str cs = map of_char cs"

subsection \<open>The digest\<close>

text \<open>
  \<open>hashlib.md5\<close> is a library function: the model takes it as a parameter \<open>md5\<close>,
  any function from byte strings to 128-bit digests, and every result below holds for
  each such function. \<open>hexdigest\<close> prints the sixteen bytes of the digest, two
  lowercase hexadecimal digits each.
\<close>

type_synonym digest = "128 word"

definition digest_bytes :: "digest \<Rightarrow> byte list" where
  "digest_bytes w = map (\<lambda>i. ucast (drop_bit (8 * (15 - i)) w)) [0..<16]"

definition hexstr :: "byte list \<Rightarrow> string" where
  "hexstr bs = concat (map (\<lambda>b. [hex_digit (unat b div 16), hex_digit (unat b mod 16)]) bs)"

definition hexdigest :: "digest \<Rightarrow> string" where
  "hexdigest w = hexstr (digest_bytes w)"

definition CHECKSUM_SALT :: "byte list" where
  "CHECKSUM_SALT = map of_char ''battlecatsen''"

subsection \<open>Reading, and seeking from the end\<close>

definition file_read :: "byte list io" where
  "file_read s =
     (case file_handle s of
        None \<Rightarrow> (Inl RuntimeError, s)
      | Some f \<Rightarrow>
          if closed f then (Inl ValueError, s)
          else (Inr (drop (pos f) (save_data s)),
                s\<lparr>file_handle := Some (f\<lparr>pos := max (pos f) (length (save_data s))\<rparr>)\<rparr>))"

definition file_seek_end :: "int \<Rightarrow> unit io" where
  \<comment> \<open>\<open>f.seek(off, os.SEEK_END)\<close>: a position before the start of the file is refused\<close>
  "file_seek_end off s =
     (case file_handle s of
        None \<Rightarrow> (Inl RuntimeError, s)
      | Some f \<Rightarrow>
          if closed f then (Inl ValueError, s)
          else if int (length (save_data s)) + off < 0 then (Inl OSError, s)
          else (Inr (), s\<lparr>file_handle :=
                           Some (f\<lparr>pos := nat (int (length (save_data s)) + off)\<rparr>)\<rparr>))"

subsection \<open>The patcher\<close>

text \<open>
  \<open>patch_checksum\<close> opens the file itself. The model takes the bytes of the file and
  returns the result (\<open>True\<close>: patched, \<open>False\<close>: already valid, or the exception)
  together with the bytes of the file afterwards.
\<close>

definition patch_checksum :: "(byte list \<Rightarrow> digest) \<Rightarrow> byte list \<Rightarrow> (error + bool) \<times> byte list" where
  "patch_checksum md5 file =
     (case io_bind file_read (\<lambda>raw_data.
             let data = slice None (Some (- 32)) raw_data;
                 checksum = slice (Some (- 32)) None raw_data;
                 new_checksum = hexdigest (md5 (CHECKSUM_SALT @ data))
             in io_bind (io_lift (decode checksum)) (\<lambda>old.
                if str new_checksum \<noteq> old then
                  io_bind (file_seek_end (- 32)) (\<lambda>u.
                  io_bind (io_lift (fromhex new_checksum)) (\<lambda>raw.
                  io_bind (file_write (hexlify raw)) (\<lambda>u.
                  io_lift (Inr True))))
                else io_lift (Inr False)))
            \<lparr>save_data = file, file_handle = Some \<lparr>pos = 0, closed = False\<rparr>\<rparr>
      of (r, s) \<Rightarrow> (r, save_data s))"

definition tag_of :: "(byte list \<Rightarrow> digest) \<Rightarrow> byte list \<Rightarrow> byte list" where
  \<comment> \<open>the tag that belongs to the data bytes \<open>d\<close>: \<open>hex(md5(salt || d))\<close> as ASCII bytes\<close>
  "tag_of md5 d = map of_char (hexdigest (md5 (CHECKSUM_SALT @ d)))"

section \<open>Sample states\<close>

definition unopened :: save_editor where
  "unopened = \<lparr>save_data = [1, 2, 3, 4, 5, 6, 7, 8, 9, 10, 11, 12], file_handle = None\<rparr>"

definition opened :: "byte list \<Rightarrow> save_editor" where
  "opened bs = enter_ctx \<lparr>save_data = bs, file_handle = None\<rparr>"

definition stale_save :: "byte list" where
  \<comment> \<open>a file of 120 bytes, none of them zero\<close>
  "stale_save = replicate 120 0xAA"

definition patched_save :: "byte list" where
  \<comment> \<open>eight data bytes and the tag that \<open>sample_md5\<close> gives them\<close>
  "patched_save = [1, 2, 3, 4, 5, 6, 7, 8] @ map of_char ''00000000000000000000000000000014''"

definition sample_md5 :: "byte list \<Rightarrow> digest" where
  \<comment> \<open>a stand-in digest for the examples, which do not depend on the hash\<close>
  "sample_md5 bs = of_nat (length bs)"

section \<open>Hexadecimal digits\<close>

lemma less16_cases:
  "d < 16 \<Longrightarrow> d = 0 \<or> d = 1 \<or> d = 2 \<or> d = 3 \<or> d = 4 \<or> d = 5 \<or> d = 6 \<or> d = 7 \<or> d = 8
     \<or> d = 9 \<or> d = 10 \<or> d = 11 \<or> d = 12 \<or> d = 13 \<or> d = 14 \<or> d = (15::nat)"
  by arith

lemma hexval_hex_digit: "d < 16 \<Longrightarrow> hexval (hex_digit d) = Some d"
  by (drule less16_cases) (auto simp: hex_digit_def hexval_def)

lemma not_space_hex_digit: "d < 16 \<Longrightarrow> \<not> is_space (hex_digit d)"
  by (drule less16_cases) (auto simp: hex_digit_def is_space_def)

lemma ascii_hex_digit: "d < 16 \<Longrightarrow> (of_char (hex_digit d) :: nat) < 128"
  by (drule less16_cases) (auto simp: hex_digit_def)

lemma hex_digits_nonempty: "hex_digits n \<noteq> []"
  by (subst hex_digits.simps) simp

lemma fromhex_00: "fromhex ''00'' = Inr [0]"
  by (simp add: hexval_def is_space_def)

lemma length_hex_digits_le: "0 < k \<Longrightarrow> (length (hex_digits n) \<le> k) = (n < 16 ^ k)"
proof (induction n arbitrary: k rule: hex_digits.induct)
  case (1 n)
  show ?case
  proof (cases "n < 16")
    case True
    have "(16::nat) ^ 1 \<le> 16 ^ k"
      using 1(2) by (intro power_increasing) auto
    with True 1(2) show ?thesis
      by (simp add: hex_digits.simps [of n])
  next
    case False
    show ?thesis
    proof (cases "k = 1")
      case True
      with False show ?thesis
        by (simp add: hex_digits.simps [of n] hex_digits_nonempty)
    next
      case k: False
      with 1(2) obtain j where j: "k = Suc j" "0 < j"
        by (cases k) auto
      have "(length (hex_digits (n div 16)) \<le> j) = (n div 16 < 16 ^ j)"
        using 1(1) [OF False j(2)] .
      moreover have "(n div 16 < 16 ^ j) = (n < 16 ^ k)"
        using j(1) by (simp add: div_less_iff_less_mult mult.commute)
      ultimately show ?thesis
        using False j(1) by (simp add: hex_digits.simps [of n])
    qed
  qed
qed

lemma hex_value_nonneg: "0 \<le> a \<Longrightarrow> slice (Some 2) None (hex a) = hex_digits (nat a)"
  by (simp add: slice_def slice_index_def hex_def)

lemma set_cat_food_skip:
  "file_handle s \<noteq> None \<Longrightarrow> 4 < length (slice (Some 2) None (hex a)) \<Longrightarrow>
     set_cat_food a s = (Inr (), s)"
proof -
  assume h: "file_handle s \<noteq> None" and l: "4 < length (slice (Some 2) None (hex a))"
  let ?n = "length (slice (Some 2) None (hex a))"
  have "?n \<noteq> 1" "?n \<noteq> 2" "?n \<noteq> 3" "?n \<noteq> 4"
    using l by simp_all
  with h show ?thesis
    by (simp add: set_cat_food_def io_bind_def io_lift_def Let_def hexval_def is_space_def)
qed

lemma set_xp_skip:
  "file_handle s \<noteq> None \<Longrightarrow> 7 < length (slice (Some 2) None (hex a)) \<Longrightarrow>
     set_xp a s = (Inr (), s)"
proof -
  assume h: "file_handle s \<noteq> None" and l: "7 < length (slice (Some 2) None (hex a))"
  let ?n = "length (slice (Some 2) None (hex a))"
  have "?n \<noteq> 1" "?n \<noteq> 2" "?n \<noteq> 3" "?n \<noteq> 4" "?n \<noteq> 5" "?n \<noteq> 6" "?n \<noteq> 7"
    using l by simp_all
  with h show ?thesis
    by (simp add: set_xp_def io_bind_def io_lift_def Let_def hexval_def is_space_def)
qed

lemma long_hex_value:
  assumes "0 < k" "16 ^ k \<le> a"
  shows "k < length (slice (Some 2) None (hex a))"
proof -
  have a: "0 \<le> a"
    using assms(2) by (rule order_trans [rotated]) simp
  have "\<not> nat a < 16 ^ k"
    using assms(2) a by (simp add: nat_less_iff not_less)
  then have "\<not> length (hex_digits (nat a)) \<le> k"
    using length_hex_digits_le [OF assms(1)] by simp
  with a show ?thesis
    by (simp add: hex_value_nonneg)
qed

section \<open>Amounts with more digits than any branch handles\<close>

text \<open>
  C9. On an opened editor, a cat-food amount of more than four hexadecimal digits
  (\<open>65536 \<le> a < 2 ^ 24\<close>) and an XP amount of more than seven (\<open>2 ^ 28 \<le> b\<close>) match
  no branch: the call returns normally and the state it returns, every byte of the file
  and the handle, is the state it was given.
\<close>

theorem large_amounts_skipped:
  "file_handle s \<noteq> None \<Longrightarrow> 65536 \<le> a \<Longrightarrow> a < 2 ^ 24 \<Longrightarrow> 2 ^ 28 \<le> b \<Longrightarrow>
     set_cat_food a s = (Inr (), s) \<and> set_xp b s = (Inr (), s)"
  using long_hex_value [of 4 a] long_hex_value [of 7 b]
  by (simp add: set_cat_food_skip set_xp_skip)

theorem large_amounts_skipped_witness:
  "file_handle (opened stale_save) \<noteq> None \<and> (65536::int) \<le> 70000 \<and> (70000::int) < 2 ^ 24
   \<and> (2 ^ 28 :: int) \<le> 300000000
   \<and> set_cat_food 70000 (opened stale_save) = (Inr (), opened stale_save)
   \<and> set_xp 300000000 (opened stale_save) = (Inr (), opened stale_save)"
  using large_amounts_skipped [of "opened stale_save" 70000 300000000]
  by (simp add: opened_def enter_ctx_def)

section \<open>Evaluating the encoders\<close>

lemma replicate_3: "replicate 3 x = [x, x, x]"
  by (simp add: numeral_3_eq_3)

lemma replicate_4: "replicate 4 x = [x, x, x, x]"
proof -
  have "(4::nat) = Suc 3" by simp
  then show ?thesis by (simp only: replicate_Suc replicate_3)
qed

lemmas eval_defs = opened_def enter_ctx_def set_cat_food_def set_xp_def hex_def hex_digits.simps
    slice_def slice_index_def hex_digit_def io_bind_def io_lift_def hexval_def is_space_def
    file_seek_def file_write_def write_at_def for_range_def stale_save_def window_def
    replicate_3 replicate_4

section \<open>Amounts that do not fit the field\<close>

text \<open>
  C6, as the code has it. Neither encoder checks the range of its argument. On an opened
  editor an amount that does not fit the field (\<open>2 ^ 24 \<le> a\<close> for cat food,
  \<open>2 ^ 32 \<le> b\<close> for XP) raises nothing: the call returns normally and leaves every
  byte of the file as it was. The range is checked by the caller alone.
\<close>

theorem unrepresentable_amounts_accepted:
  "file_handle s \<noteq> None \<Longrightarrow> 2 ^ 24 \<le> a \<Longrightarrow> 2 ^ 32 \<le> b \<Longrightarrow>
     set_cat_food a s = (Inr (), s) \<and> set_xp b s = (Inr (), s)"
  using long_hex_value [of 6 a] long_hex_value [of 8 b]
  by (simp add: set_cat_food_skip set_xp_skip)

theorem unrepresentable_amounts_accepted_witness:
  "file_handle (opened stale_save) \<noteq> None \<and> (2 ^ 24 :: int) \<le> 16777216
   \<and> (2 ^ 32 :: int) \<le> 4294967296
   \<and> set_cat_food 16777216 (opened stale_save) = (Inr (), opened stale_save)
   \<and> set_xp 4294967296 (opened stale_save) = (Inr (), opened stale_save)"
  using unrepresentable_amounts_accepted [of "opened stale_save" 16777216 4294967296]
  by (simp add: opened_def enter_ctx_def)

text \<open>
  C6 as stated asks for an error. At \<open>2 ^ 24\<close> and \<open>2 ^ 32\<close>, the smallest
  amounts that do not fit, both calls return normally.
\<close>

theorem out_of_range_counterexample:
  "fst (set_cat_food 16777216 (opened stale_save)) = Inr ()
   \<and> fst (set_xp 4294967296 (opened stale_save)) = Inr ()"
  by (simp add: eval_defs)

section \<open>Amounts the branches miss\<close>

text \<open>
  C1 at the amount 65536 (\<open>0x10000\<close>, five digits, three bytes). The file holds
  \<open>0xAA\<close> everywhere. \<open>set_cat_food\<close> returns normally and the three bytes at
  offset 7 still decode to \<open>0xAAAAAA\<close>, not to 65536: nothing was stored.
\<close>

theorem cat_food_65536_not_stored:
  "fst (set_cat_food 65536 (opened stale_save)) = Inr ()
   \<and> decode_le (window 7 3 (save_data (snd (set_cat_food 65536 (opened stale_save))))) = 11184810"
  by (simp add: eval_defs)

text \<open>
  C2 at the amount \<open>2 ^ 28\<close> (\<open>0x10000000\<close>, eight digits, four bytes).
  \<open>set_xp\<close> returns normally and the four bytes at offset 76 still decode to
  \<open>0xAAAAAAAA\<close>, not to \<open>2 ^ 28\<close>.
\<close>

theorem xp_268435456_not_stored:
  "fst (set_xp 268435456 (opened stale_save)) = Inr ()
   \<and> decode_le (window 76 4 (save_data (snd (set_xp 268435456 (opened stale_save))))) = 2863311530"
  by (simp add: eval_defs)

text \<open>
  C7 at the largest amounts of each width, \<open>2 ^ 24 - 1\<close> and \<open>2 ^ 32 - 1\<close>, which
  should fill the window with \<open>0xFF\<close>. No byte of either window is written: the
  bytes left by the previous content stay.
\<close>

theorem largest_amounts_leave_window:
  "window 7 3 (save_data (snd (set_cat_food 16777215 (opened stale_save)))) = [0xAA, 0xAA, 0xAA]
   \<and> window 76 4 (save_data (snd (set_xp 4294967295 (opened stale_save))))
       = [0xAA, 0xAA, 0xAA, 0xAA]"
  by (simp add: eval_defs)

section \<open>Calls on an editor that was never opened\<close>

text \<open>
  C10. Outside the context manager the handle is \<open>None\<close>: for every amount both
  \<open>set_cat_food\<close> and \<open>set_xp\<close> raise \<open>RuntimeError\<close>, and the state
  they return, bytes and handle, is the state they were given.
\<close>

theorem set_unopened_raises:
  "file_handle s = None \<Longrightarrow>
     set_cat_food amount s = (Inl RuntimeError, s) \<and> set_xp amount s = (Inl RuntimeError, s)"
  by (simp add: set_cat_food_def set_xp_def)

theorem set_unopened_raises_witness:
  "file_handle unopened = None \<and>
   set_cat_food 1000 unopened = (Inl RuntimeError, unopened) \<and>
   set_xp 1000 unopened = (Inl RuntimeError, unopened)"
proof -
  have h: "file_handle unopened = None"
    by (simp add: unopened_def)
  from set_unopened_raises [OF h, of 1000] h show ?thesis
    by simp
qed

section \<open>Hexadecimal text and UTF-8\<close>

lemma length_digest_bytes: "length (digest_bytes w) = 16"
  by (simp add: digest_bytes_def)

lemma length_hexstr: "length (hexstr bs) = 2 * length bs"
  by (induction bs) (simp_all add: hexstr_def)

lemma length_hexdigest: "length (hexdigest w) = 32"
  by (simp add: hexdigest_def length_hexstr length_digest_bytes)

lemma hexstr_Cons:
  "hexstr (b # bs) = hex_digit (unat b div 16) # hex_digit (unat b mod 16) # hexstr bs"
  by (simp add: hexstr_def)

lemma unat_byte_less: "unat (b :: byte) < 256"
  using unsigned_less [of b, where ?'a = nat] by simp

lemma byte_of_nibbles: "(of_nat (16 * (unat b div 16) + unat b mod 16) :: byte) = b"
  by simp

lemma fromhex_hexstr: "fromhex (hexstr bs) = Inr bs"
proof (induction bs)
  case Nil
  show ?case by (simp add: hexstr_def)
next
  case (Cons b bs)
  have h: "unat b div 16 < 16" and l: "unat b mod 16 < 16"
    using unat_byte_less [of b] by simp_all
  show ?case
    unfolding hexstr_Cons
    by (simp only: fromhex.simps not_space_hex_digit [OF h] hexval_hex_digit [OF h]
          hexval_hex_digit [OF l] Cons.IH byte_of_nibbles if_False
          prod.case option.case sum.case)
qed

lemma hexlify_hexstr: "hexlify bs = map of_char (hexstr bs)"
  by (induction bs) (simp_all add: hexlify_def hexstr_def)

lemma ascii_hexstr: "c \<in> set (hexstr bs) \<Longrightarrow> (of_char c :: nat) < 128"
proof (induction bs)
  case Nil
  then show ?case by (simp add: hexstr_def)
next
  case (Cons b bs)
  have h: "unat b div 16 < 16" and l: "unat b mod 16 < 16"
    using unat_byte_less [of b] by simp_all
  from Cons show ?case
    using ascii_hex_digit [OF h] ascii_hex_digit [OF l]
    by (auto simp: hexstr_Cons)
qed

lemma unat_of_char: "unat (of_char c :: byte) = of_char c"
proof -
  have "(of_char c :: byte) = of_nat (of_char c)"
    by (simp add: of_nat_of_char)
  then show ?thesis
    by (simp add: unat_of_nat)
qed

lemma utf8_decode_ascii: "\<forall>b \<in> set bs. unat b < 128 \<Longrightarrow> utf8_decode bs = Some (map unat bs)"
  by (induction bs) simp_all

lemma utf8_decode_ascii_inv:
  "utf8_decode bs = Some cps \<Longrightarrow> \<forall>c \<in> set cps. c < 128 \<Longrightarrow> cps = map unat bs"
proof (induction bs arbitrary: cps rule: utf8_decode.induct)
  case 1
  then show ?case by simp
next
  case (2 b0 bs)
  show ?case
  proof (cases "unat b0 < 128")
    case True
    with 2(5) obtain r where r: "utf8_decode bs = Some r" "cps = unat b0 # r"
      by (auto simp: Let_def)
    with 2(6) have "r = map unat bs"
      by (intro 2(1) [OF refl True]) auto
    with r show ?thesis by simp
  next
    case False
    with 2(5) obtain c r where "cps = c # r" "128 \<le> c"
      by (auto simp: Let_def cont_byte_def split: if_splits list.splits)
    with 2(6) show ?thesis by auto
  qed
qed
lemma nat_clip: "nat (max (int n - 32) 0) = n - 32"
  by arith

lemma slice_data: "slice None (Some (- 32)) xs = take (length xs - 32) xs"
  by (simp add: slice_def slice_index_def nat_clip)

lemma slice_tag: "slice (Some (- 32)) None xs = drop (length xs - 32) xs"
  by (simp add: slice_def slice_index_def nat_clip)

lemma length_tag_of: "length (tag_of md5 d) = 32"
  by (simp add: tag_of_def length_hexdigest)

lemma write_at_tail:
  "length t \<le> length f \<Longrightarrow> write_at (length f - length t) t f = take (length f - length t) f @ t"
  by (simp add: write_at_def)

lemma patch_checksum_unfold:
  "patch_checksum md5 buf =
     (case utf8_decode (drop (length buf - 32) buf) of
        None \<Rightarrow> (Inl UnicodeDecodeError, buf)
      | Some old \<Rightarrow>
          if str (hexdigest (md5 (CHECKSUM_SALT @ take (length buf - 32) buf))) \<noteq> old
          then (if length buf < 32 then (Inl OSError, buf)
                else (Inr True,
                      take (length buf - 32) buf @ tag_of md5 (take (length buf - 32) buf)))
          else (Inr False, buf))"
proof -
  let ?d = "take (length buf - 32) buf"
  have w: "32 \<le> length buf \<Longrightarrow>
      write_at (length buf - 32) (tag_of md5 ?d) buf = ?d @ tag_of md5 ?d"
    using write_at_tail [of "tag_of md5 ?d" buf] by (simp add: length_tag_of)
  have n: "32 \<le> length buf \<Longrightarrow> nat (int (length buf) - 32) = length buf - 32"
    by simp
  show ?thesis
    by (simp add: patch_checksum_def io_bind_def io_lift_def file_read_def decode_def
          file_seek_end_def file_write_def slice_data slice_tag Let_def hexdigest_def
          fromhex_hexstr hexlify_hexstr tag_of_def [symmetric, unfolded hexdigest_def] w n
          not_less
        split: option.split)
qed
lemma utf8_decode_length: "utf8_decode bs = Some cps \<Longrightarrow> length cps \<le> length bs"
proof (induction "length bs" arbitrary: bs cps rule: less_induct)
  case less
  show ?case
  proof (cases bs)
    case Nil
    with less.prems show ?thesis by simp
  next
    case (Cons b0 r0)
    have IH: "utf8_decode r = Some q \<Longrightarrow> length r < length bs \<Longrightarrow> length q \<le> length r" for r q
      using less.hyps by blast
    from less.prems show ?thesis
      unfolding Cons
      by (auto simp: Let_def Cons split: if_splits list.splits dest!: IH)
  qed
qed

lemma ascii_str_hexdigest: "c \<in> set (str (hexdigest w)) \<Longrightarrow> c < 128"
  by (auto simp: str_def hexdigest_def dest: ascii_hexstr)

lemma unat_ascii_bytes: "map unat (map of_char s :: byte list) = str s"
  by (simp add: str_def unat_of_char)

lemma map_unat_inj: "map unat (xs :: byte list) = map unat ys \<Longrightarrow> xs = ys"
  by (simp add: inj_map_eq_map)

lemma utf8_decode_tag: "utf8_decode (map of_char (hexdigest w)) = Some (str (hexdigest w))"
proof -
  have "\<forall>b \<in> set (map of_char (hexdigest w) :: byte list). unat b < 128"
    using ascii_hexstr [of _ "digest_bytes w"] by (auto simp: unat_of_char hexdigest_def)
  from utf8_decode_ascii [OF this] show ?thesis
    by (simp only: unat_ascii_bytes)
qed

lemma stale_iff:
  assumes "utf8_decode t = Some old"
  shows "(str (hexdigest w) \<noteq> old) = (t \<noteq> map of_char (hexdigest w))"
proof -
  have "t = map of_char (hexdigest w)" if "str (hexdigest w) = old"
  proof -
    have "\<forall>c \<in> set old. c < 128"
      using that ascii_str_hexdigest [of _ w] by auto
    from utf8_decode_ascii_inv [OF assms this] that
    have "map unat t = map unat (map of_char (hexdigest w) :: byte list)"
      by (simp only: unat_ascii_bytes)
    then show ?thesis by (rule map_unat_inj)
  qed
  moreover have "str (hexdigest w) = old" if "t = map of_char (hexdigest w)"
    using assms that by (simp add: utf8_decode_tag)
  ultimately show ?thesis by blast
qed

lemma patch_checksum_decodable:
  assumes "32 \<le> length buf" "utf8_decode (drop (length buf - 32) buf) = Some old"
  shows "patch_checksum md5 buf =
     (if drop (length buf - 32) buf = tag_of md5 (take (length buf - 32) buf)
      then (Inr False, buf)
      else (Inr True, take (length buf - 32) buf @ tag_of md5 (take (length buf - 32) buf)))"
  using assms stale_iff [OF assms(2), of "md5 (CHECKSUM_SALT @ take (length buf - 32) buf)"]
  by (simp add: patch_checksum_unfold tag_of_def)

lemma patch_checksum_undecodable:
  "utf8_decode (drop (length buf - 32) buf) = None \<Longrightarrow>
     patch_checksum md5 buf = (Inl UnicodeDecodeError, buf)"
  by (simp add: patch_checksum_unfold)

lemma patch_checksum_short:
  assumes "length buf < 32"
  shows "patch_checksum md5 buf = (Inl OSError, buf)
         \<or> patch_checksum md5 buf = (Inl UnicodeDecodeError, buf)"
proof (cases "utf8_decode (drop (length buf - 32) buf)")
  case None
  then show ?thesis by (simp add: patch_checksum_undecodable)
next
  case (Some old)
  have "length old \<le> length buf"
    using utf8_decode_length [OF Some] by simp
  then have "str (hexdigest (md5 (CHECKSUM_SALT @ take (length buf - 32) buf))) \<noteq> old"
    using assms length_hexdigest [of "md5 (CHECKSUM_SALT @ take (length buf - 32) buf)"]
    by (auto simp: str_def)
  with Some assms show ?thesis by (simp add: patch_checksum_unfold)
qed

lemma patch_checksum_valid:
  assumes t: "drop (length buf - 32) buf = tag_of md5 (take (length buf - 32) buf)"
  shows "patch_checksum md5 buf = (Inr False, buf)"
proof -
  let ?d = "take (length buf - 32) buf" and ?t = "drop (length buf - 32) buf"
  have "length ?t = 32"
    using t by (simp only: length_tag_of)
  then have n: "32 \<le> length buf" by simp
  have "utf8_decode ?t = Some (str (hexdigest (md5 (CHECKSUM_SALT @ ?d))))"
    unfolding t tag_of_def by (rule utf8_decode_tag)
  from patch_checksum_decodable [OF n this] t show ?thesis by simp
qed

lemma patch_checksum_twice:
  assumes "32 \<le> length buf" "utf8_decode (drop (length buf - 32) buf) = Some old"
  shows "patch_checksum md5 (snd (patch_checksum md5 buf))
           = (Inr False, snd (patch_checksum md5 buf))"
proof -
  let ?d = "take (length buf - 32) buf"
  let ?b = "snd (patch_checksum md5 buf)"
  have "?b = ?d @ tag_of md5 ?d"
    using assms(1) append_take_drop_id [of "length buf - 32" buf]
    by (auto simp: patch_checksum_decodable [OF assms] simp del: append_take_drop_id)
  then have "drop (length ?b - 32) ?b = tag_of md5 (take (length ?b - 32) ?b)"
    using assms(1) by (simp add: length_tag_of)
  then show ?thesis by (rule patch_checksum_valid)
qed

lemma utf8_decode_bad_lead:
  "(128 \<le> unat b \<and> unat b < 194) \<or> 245 \<le> unat b \<Longrightarrow> utf8_decode (b # bs) = None"
  by (auto simp: Let_def)

lemma replicate_pos: "0 < n \<Longrightarrow> replicate n x = x # replicate (n - 1) x"
  by (cases n) simp_all

lemma upt_16: "[0..<16] = [0, 1, 2, 3, 4, 5, 6, 7, 8, 9, 10, 11, 12, 13, 14, 15]"
  by code_simp

lemma sample_digest: "sample_md5 (CHECKSUM_SALT @ [1, 2, 3, 4, 5, 6, 7, 8]) = 20"
  by (simp add: sample_md5_def CHECKSUM_SALT_def)

lemma hexdigest_20: "hexdigest 20 = ''00000000000000000000000000000014''"
  by (simp add: hexdigest_def hexstr_def digest_bytes_def hex_digit_def upt_16 drop_bit_eq_div)

section \<open>What the patcher writes\<close>

text \<open>
  C8. For every file and every digest function, \<open>patch_checksum\<close> keeps the length
  of the file and every byte in front of the last 32, whatever it returns or raises; and
  when the last 32 bytes already are the hexadecimal digest of the bytes in front of them
  it returns \<open>False\<close> (already valid) and the file is byte for byte what it was.
\<close>

theorem patch_checksum_frame:
  "length (snd (patch_checksum md5 buf)) = length buf
   \<and> take (length buf - 32) (snd (patch_checksum md5 buf)) = take (length buf - 32) buf
   \<and> (drop (length buf - 32) buf = tag_of md5 (take (length buf - 32) buf)
        \<longrightarrow> patch_checksum md5 buf = (Inr False, buf))"
proof -
  let ?d = "take (length buf - 32) buf" and ?t = "drop (length buf - 32) buf"
  have same: "length (snd (patch_checksum md5 buf)) = length buf
      \<and> take (length buf - 32) (snd (patch_checksum md5 buf)) = ?d"
  proof (cases "length buf < 32")
    case True
    from patch_checksum_short [OF True, of md5] show ?thesis by auto
  next
    case False
    then have n: "32 \<le> length buf" by simp
    show ?thesis
    proof (cases "utf8_decode ?t")
      case None
      then show ?thesis by (simp add: patch_checksum_undecodable)
    next
      case (Some old)
      from n show ?thesis
        by (simp add: patch_checksum_decodable [OF n Some] length_tag_of)
    qed
  qed
  from same patch_checksum_valid [of buf md5] show ?thesis by blast
qed

theorem patch_checksum_frame_witness:
  "drop (length patched_save - 32) patched_save
     = tag_of sample_md5 (take (length patched_save - 32) patched_save)
   \<and> patch_checksum sample_md5 patched_save = (Inr False, patched_save)"
proof -
  have h: "drop (length patched_save - 32) patched_save
     = tag_of sample_md5 (take (length patched_save - 32) patched_save)"
    by (simp add: patched_save_def tag_of_def sample_digest hexdigest_20)
  from patch_checksum_frame [of sample_md5 patched_save] h show ?thesis
    by blast
qed

section \<open>A stored tag that is not text\<close>

text \<open>
  The patcher compares the new digest with \<open>checksum.decode()\<close>. When the last 32
  bytes are not well-formed UTF-8 the decoding raises before anything is compared or
  written. Where the stored tag decodes, \<open>patch_checksum_decodable\<close> and
  \<open>patch_checksum_twice\<close> above give the result: a tag that differs from the digest is
  replaced by it, and a second call returns \<open>False\<close> and writes nothing.
\<close>

text \<open>
  C3 at a file of 32 bytes \<open>0xFF\<close>: no data bytes and a stored tag that is certainly
  not the digest. The call raises \<open>UnicodeDecodeError\<close> and the tag stays; it is not
  replaced by the digest and \<open>True\<close> is not returned.
\<close>

theorem garbage_tag_raises:
  "patch_checksum md5 (replicate 32 0xFF) = (Inl UnicodeDecodeError, replicate 32 0xFF)"
proof -
  have "utf8_decode (replicate 32 (0xFF :: byte)) = None"
    by (subst replicate_pos) (simp_all add: utf8_decode_bad_lead)
  then show ?thesis
    by (intro patch_checksum_undecodable) simp
qed

text \<open>
  C4 at a file of eight zero bytes followed by 32 bytes \<open>0xFF\<close>: the first call raises
  and leaves the file as it was, and a second call on that file raises again instead of
  returning \<open>False\<close>.
\<close>

theorem second_call_raises_again:
  "patch_checksum md5 (replicate 8 0 @ replicate 32 0xFF)
     = (Inl UnicodeDecodeError, replicate 8 0 @ replicate 32 0xFF)
   \<and> patch_checksum md5 (snd (patch_checksum md5 (replicate 8 0 @ replicate 32 0xFF)))
     = (Inl UnicodeDecodeError, replicate 8 0 @ replicate 32 0xFF)"
proof -
  have "utf8_decode (replicate 32 (0xFF :: byte)) = None"
    by (subst replicate_pos) (simp_all add: utf8_decode_bad_lead)
  then have "patch_checksum md5 (replicate 8 0 @ replicate 32 0xFF)
     = (Inl UnicodeDecodeError, replicate 8 0 @ replicate 32 0xFF)"
    by (intro patch_checksum_undecodable) simp
  then show ?thesis by simp
qed

section \<open>When the patcher fails\<close>

text \<open>
  The patcher has no check of the length of the file. A file of fewer than 32 bytes is
  refused at the seek to 32 bytes before its end, and a stored tag that does not decode
  is refused at the decoding: the call raises on these files and on no other.
\<close>

lemma patch_checksum_fails_iff:
  "(\<exists>e. fst (patch_checksum md5 buf) = Inl e)
     = (length buf < 32 \<or> utf8_decode (drop (length buf - 32) buf) = None)"
proof (cases "length buf < 32")
  case True
  with patch_checksum_short [OF True, of md5] show ?thesis by auto
next
  case False
  then have n: "32 \<le> length buf" by simp
  show ?thesis
  proof (cases "utf8_decode (drop (length buf - 32) buf)")
    case None
    then show ?thesis by (simp add: patch_checksum_undecodable)
  next
    case (Some old)
    with False show ?thesis
      by (simp add: patch_checksum_decodable [OF n Some])
  qed
qed

text \<open>
  C5 at a file of 48 bytes \<open>0x80\<close>. The file is not shorter than 32 bytes, and for
  every digest function the call raises \<open>UnicodeDecodeError\<close> and leaves the file as
  it was: a failure on a buffer of at least 32 bytes.
\<close>

theorem long_buffer_raises:
  "32 \<le> length (replicate 48 (0x80 :: byte))
   \<and> patch_checksum md5 (replicate 48 0x80) = (Inl UnicodeDecodeError, replicate 48 0x80)"
proof -
  have "utf8_decode (replicate 32 (0x80 :: byte)) = None"
    by (subst replicate_pos) (simp_all add: utf8_decode_bad_lead)
  then have "patch_checksum md5 (replicate 48 0x80)
      = (Inl UnicodeDecodeError, replicate 48 0x80)"
    by (intro patch_checksum_undecodable) simp
  then show ?thesis by simp
qed

end
